theory Spec2Isabelle
  imports Main
begin

section \<open>JavaScript strings\<close>

text \<open>
  A JavaScript string is a sequence of UTF-16 code units; a code unit is modelled as a
  natural number. The literals of the source are ASCII except for the right single
  quotation mark U+2019 (code unit 8217) and the pound sign U+00A3 (code unit 163) in
  some prompts, which are written as numbers.
\<close>

type_synonym jsstring = "nat list"

definition js :: "string \<Rightarrow> jsstring" where
  "js s = map of_char s"

text \<open>
  \<open>String.prototype.toLowerCase\<close> replaces every code point by its Unicode lower case,
  which may be more than one code unit. \<open>lowerUnits\<close> has the mapping of the Basic Latin
  and Latin-1 blocks (A-Z, and U+00C0..U+00DE except the multiplication sign U+00D7) and
  the two code points outside Basic Latin whose lower case holds a Basic Latin code
  unit: U+212A KELVIN SIGN, which becomes \<open>k\<close>, and U+0130, which becomes \<open>i\<close> followed
  by U+0307. Every other code unit is left as it is; the real function turns the cased
  letters among them (Greek, Cyrillic, ...) into other code units from 128 on. The source
  uses the lower-cased text only to search it for phrases of Basic Latin code units, and
  such a search cannot tell the two apart (\<open>matching_ignores_other_letters\<close> below).
\<close>

definition lowerUnits :: "nat \<Rightarrow> nat list" where
  "lowerUnits c =
     (if 65 \<le> c \<and> c \<le> 90 then [c + 32]
      else if 192 \<le> c \<and> c \<le> 222 \<and> c \<noteq> 215 then [c + 32]
      else if c = 304 then [105, 775]
      else if c = 8490 then [107]
      else [c])"

definition toLowerCase :: "jsstring \<Rightarrow> jsstring" where
  "toLowerCase s = concat (map lowerUnits s)"

text \<open>
  \<open>String.prototype.trim\<close> removes the WhiteSpace and LineTerminator code points of
  ECMAScript from both ends.
\<close>

definition isWhiteSpace :: "nat \<Rightarrow> bool" where
  "isWhiteSpace c =
     (c = 9 \<or> c = 10 \<or> c = 11 \<or> c = 12 \<or> c = 13 \<or> c = 32 \<or> c = 160 \<or> c = 5760
      \<or> (8192 \<le> c \<and> c \<le> 8202) \<or> c = 8232 \<or> c = 8233 \<or> c = 8239 \<or> c = 8287
      \<or> c = 12288 \<or> c = 65279)"

definition trim :: "jsstring \<Rightarrow> jsstring" where
  "trim s = rev (dropWhile isWhiteSpace (rev (dropWhile isWhiteSpace s)))"

text \<open>
  \<open>t.includes(x)\<close>: \<open>x\<close> occurs in \<open>t\<close> as a contiguous run of code units.
  \<open>startsWith t x\<close> is the comparison at one position.
\<close>

fun startsWith :: "jsstring \<Rightarrow> jsstring \<Rightarrow> bool" where
  "startsWith t [] = True"
| "startsWith [] (x # xs) = False"
| "startsWith (c # cs) (x # xs) = (c = x \<and> startsWith cs xs)"

fun includes_str :: "jsstring \<Rightarrow> jsstring \<Rightarrow> bool" where
  "includes_str [] x = (x = [])"
| "includes_str (c # cs) x = (startsWith (c # cs) x \<or> includes_str cs x)"

text \<open>
  What the real lower-casing may do to a text: a code unit below 128, U+0130 or U+212A
  is replaced as \<open>lowerUnits\<close> says; any other code unit is replaced by some non-empty
  run of code units from 128 on, chosen freely at each place (so that letters the table
  above does not hold, surrogate pairs and context-dependent forms are all covered).
\<close>

definition plain :: "nat \<Rightarrow> bool" where
  "plain c = (c < 128 \<or> c = 304 \<or> c = 8490)"

inductive lower_like :: "jsstring \<Rightarrow> jsstring \<Rightarrow> bool" where
  lower_Nil: "lower_like [] []"
| lower_plain: "plain c \<Longrightarrow> lower_like s t \<Longrightarrow> lower_like (c # s) (lowerUnits c @ t)"
| lower_other:
    "\<not> plain c \<Longrightarrow> u \<noteq> [] \<Longrightarrow> list_all (\<lambda>e. 128 \<le> e) u \<Longrightarrow> lower_like s t
     \<Longrightarrow> lower_like (c # s) (u @ t)"

text \<open>
  \<open>squash\<close> keeps the code units below 128 and replaces every maximal run of other code
  units by the single unit 128; it is only used to compare two lower-casings.
\<close>

definition hi_cons :: "jsstring \<Rightarrow> jsstring" where
  "hi_cons t = (case t of [] \<Rightarrow> [128] | e # es \<Rightarrow> if e = 128 then e # es else 128 # e # es)"

fun squash :: "jsstring \<Rightarrow> jsstring" where
  "squash [] = []"
| "squash (c # cs) = (if c < 128 then c # squash cs else hi_cons (squash cs))"

section \<open>Output sanitization (src/server.js, first draft)\<close>

text \<open>
  \<open>containsDollar\<close>: the text is lower-cased and searched for the four currency markers.
\<close>

definition containsDollar :: "jsstring \<Rightarrow> bool" where
  "containsDollar text =
     (let t = toLowerCase text
      in includes_str t (js ''$'') \<or> includes_str t (js ''usd'')
         \<or> includes_str t (js ''dollar'') \<or> includes_str t (js ''bucks''))"

definition gbp_prompt :: jsstring where
  "gbp_prompt = js ''Sorry, that'' @ [8217] @ js ''s in pounds. I will quote in '' @ [163]
     @ js '' only. Is the cleaning for a home or a business premises?''"

text \<open>
  \<open>enforceGbpSpeech\<close>: the empty text is returned as it is (\<open>if (!text) return text\<close>),
  a text with a marker is replaced by the fixed prompt, any other is returned unchanged.
\<close>

definition enforceGbpSpeech :: "jsstring \<Rightarrow> jsstring" where
  "enforceGbpSpeech text =
     (if text = [] then text
      else if containsDollar text then gbp_prompt
      else text)"

text \<open>
  \<open>sayGather\<close> builds the TwiML answer: a speech gather whose spoken text is
  \<open>enforceGbpSpeech text\<close>, then a redirect to the input handler. The answer is modelled
  by its only varying part, the spoken text.
\<close>

definition sayGather :: "jsstring \<Rightarrow> jsstring" where
  "sayGather text = enforceGbpSpeech text"

section \<open>The session record and the session store (src/server.js)\<close>

text \<open>
  The stage of a session is a string of the source; these are the six values the source
  ever assigns or creates: \<open>"start"\<close> (lazy creation in \<open>getState\<close>), \<open>"need_category"\<close>,
  \<open>"need_service_type"\<close>, \<open>"need_job_type"\<close>, \<open>"need_property_and_postcode"\<close> and
  \<open>"next"\<close>.
\<close>

datatype stage =
  Start | Need_category | Need_service_type | Need_job_type
  | Need_property_and_postcode | Next

text \<open>
  The session object \<open>{ transcript, stage, data }\<close>. \<open>data\<close> is a JavaScript object
  used as a dictionary from field names to strings.
\<close>

record session =
  transcript :: "jsstring list"
  stage :: stage
  data :: "string \<rightharpoonup> jsstring"

text \<open>\<open>!v\<close> for a field that is either absent or a string.\<close>

definition falsy :: "jsstring option \<Rightarrow> bool" where
  "falsy v = (case v of None \<Rightarrow> True | Some s \<Rightarrow> s = [])"

text \<open>The session that \<open>getState\<close> creates for an unknown call.\<close>

definition lazy_session :: session where
  "lazy_session = \<lparr>transcript = [], stage = Start, data = Map.empty\<rparr>"

text \<open>The session that \<open>/call/start\<close> stores.\<close>

definition started_session :: session where
  "started_session = \<lparr>transcript = [], stage = Need_category, data = Map.empty\<rparr>"

text \<open>
  \<open>callState\<close> is a \<open>Map\<close> from the call identifier to the session object.
  \<open>getState\<close> returns the stored session, creating it first when the call is unknown.
\<close>

definition getState :: "('k \<rightharpoonup> session) \<Rightarrow> 'k \<Rightarrow> ('k \<rightharpoonup> session) \<times> session" where
  "getState callState callSid =
     (case callState callSid of
        None \<Rightarrow> (callState(callSid \<mapsto> lazy_session), lazy_session)
      | Some s \<Rightarrow> (callState, s))"

section \<open>Phrase matching\<close>

definition includesAny :: "jsstring \<Rightarrow> jsstring list \<Rightarrow> bool" where
  "includesAny text arr = (let t = toLowerCase text in list_ex (\<lambda>x. includes_str t x) arr)"

definition domesticHints :: "jsstring list" where
  "domesticHints = [js ''home'', js ''house'', js ''flat'', js ''apartment'', js ''studio'',
     js ''tenancy'', js ''landlord'', js ''move out'', js ''move-out'']"

definition commercialHints :: "jsstring list" where
  "commercialHints = [js ''office'', js ''shop'', js ''warehouse'', js ''school'',
     js ''clinic'', js ''gym'', js ''venue'', js ''site'', js ''business'',
     js ''restaurant'', js ''workplace'']"

text \<open>
  \<open>detectCategory\<close>: the empty string when both hint lists match or neither does.
\<close>

definition detectCategory :: "jsstring \<Rightarrow> jsstring" where
  "detectCategory text =
     (let t = toLowerCase text;
          d = list_ex (\<lambda>x. includes_str t x) domesticHints;
          c = list_ex (\<lambda>x. includes_str t x) commercialHints
      in if d \<and> \<not> c then js ''domestic''
         else if c \<and> \<not> d then js ''commercial''
         else [])"

section \<open>The prompts of the first draft\<close>

definition prompt_greeting :: jsstring where
  "prompt_greeting = js ''Hi, you'' @ [8217]
     @ js ''re through to TotalSpark Solutions. Is the cleaning for a home or for a business premises?''"

definition prompt_didnt_catch :: jsstring where
  "prompt_didnt_catch = js ''Sorry, I didn'' @ [8217]
     @ js ''t catch that. Is the cleaning for a home or for a business premises?''"

definition prompt_category_clarify :: jsstring where
  "prompt_category_clarify =
     js ''Thanks. Is it for a home, like a flat or house, or for a business, like an office or shop?''"

definition prompt_commercial_type :: jsstring where
  "prompt_commercial_type =
     js ''Thanks. What type of commercial cleaning do you need? For example regular commercial cleaning, deep clean, post-construction, or disinfection.''"

definition prompt_domestic_type :: jsstring where
  "prompt_domestic_type =
     js ''Thanks. What type of domestic cleaning do you need? For example end of tenancy, deep clean, regular cleaning, post-construction, or disinfection.''"

definition prompt_job_type :: jsstring where
  "prompt_job_type = js ''Is this a one-time clean or an ongoing service?''"

definition prompt_property :: jsstring where
  "prompt_property = js ''Thanks. What'' @ [8217] @ js ''s the property type and postcode?''"

definition prompt_job_confirm :: jsstring where
  "prompt_job_confirm =
     js ''Just to confirm, is it a one-time clean, or ongoing regular visits?''"

definition prompt_rooms :: jsstring where
  "prompt_rooms =
     js ''Thanks. Next I will ask about rooms and any extras. For now, tell me the number of bedrooms and bathrooms.''"

definition prompt_default :: jsstring where
  "prompt_default = js ''Thanks. I will ask the next detail. What'' @ [8217]
     @ js ''s the postcode?''"

section \<open>The handlers of the first draft\<close>

text \<open>
  \<open>/call/start\<close> replaces whatever is stored for the call by a session at
  \<open>need_category\<close> and greets.
\<close>

definition call_start :: "('k \<rightharpoonup> session) \<Rightarrow> 'k \<Rightarrow> ('k \<rightharpoonup> session) \<times> jsstring" where
  "call_start callState callSid =
     (callState(callSid \<mapsto> started_session), sayGather prompt_greeting)"

text \<open>
  \<open>(req.body.SpeechResult || "").trim()\<close>; an absent \<open>SpeechResult\<close> is \<open>None\<close>.
\<close>

definition speechOf :: "jsstring option \<Rightarrow> jsstring" where
  "speechOf SpeechResult = trim (case SpeechResult of None \<Rightarrow> [] | Some s \<Rightarrow> s)"

text \<open>
  The body of \<open>/call/input\<close> on the session object that \<open>getState\<close> returned: the
  updated session and the spoken text of the answer. The branches are tried in the
  order of the source, each ending in a \<open>return\<close>.
\<close>

definition input_turn :: "session \<Rightarrow> jsstring option \<Rightarrow> session \<times> jsstring" where
  "input_turn state0 SpeechResult =
     (let speech = speechOf SpeechResult;
          state = (if speech \<noteq> [] then state0\<lparr>transcript := transcript state0 @ [speech]\<rparr>
                   else state0)
      in
      if speech = [] then (state, sayGather prompt_didnt_catch)
      else if stage state = Need_category then
        (let category = detectCategory speech;
             category =
               (if category = [] then
                  (let t = toLowerCase speech;
                       category =
                         (if includes_str t (js ''home'') \<or> includes_str t (js ''domestic'')
                          then js ''domestic'' else category);
                       category =
                         (if includes_str t (js ''business'') \<or> includes_str t (js ''commercial'')
                          then js ''commercial'' else category)
                   in category)
                else category)
         in if category = [] then (state, sayGather prompt_category_clarify)
            else
              (state\<lparr>data := (data state)(''service_category'' \<mapsto> category),
                     stage := Need_service_type\<rparr>,
               if category = js ''commercial'' then sayGather prompt_commercial_type
               else sayGather prompt_domestic_type))
      else if stage state = Need_service_type then
        (let d = (data state)(''service_type_raw'' \<mapsto> speech)
         in if d ''service_category'' = Some (js ''commercial'') then
              (state\<lparr>data := d(''commercial_service_type'' \<mapsto> speech,
                                 ''domestic_service_type'' \<mapsto> []),
                     stage := Need_job_type\<rparr>,
               sayGather prompt_job_type)
            else
              (state\<lparr>data := d(''domestic_service_type'' \<mapsto> speech,
                                 ''commercial_service_type'' \<mapsto> []),
                     stage := Need_property_and_postcode\<rparr>,
               sayGather prompt_property))
      else if stage state = Need_job_type then
        (let t = toLowerCase speech;
             d = data state;
             d = (if includes_str t (js ''one'') \<or> includes_str t (js ''once'')
                     \<or> includes_str t (js ''one-off'') \<or> includes_str t (js ''one off'')
                  then d(''job_type'' \<mapsto> js ''one_time'') else d);
             d = (if includes_str t (js ''ongoing'') \<or> includes_str t (js ''regular'')
                     \<or> includes_str t (js ''weekly'') \<or> includes_str t (js ''monthly'')
                     \<or> includes_str t (js ''recurring'')
                  then d(''job_type'' \<mapsto> js ''regular'') else d)
         in if falsy (d ''job_type'') then (state\<lparr>data := d\<rparr>, sayGather prompt_job_confirm)
            else (state\<lparr>data := d, stage := Need_property_and_postcode\<rparr>,
                  sayGather prompt_property))
      else if stage state = Need_property_and_postcode then
        (state\<lparr>data := (data state)(''property_and_postcode_raw'' \<mapsto> speech),
               stage := Next\<rparr>,
         sayGather prompt_rooms)
      else (state, sayGather prompt_default))"

text \<open>
  \<open>/call/input\<close> on the store: the session object is mutated in place, so the store
  holds the updated session afterwards.
\<close>

definition call_input ::
  "('k \<rightharpoonup> session) \<Rightarrow> 'k \<Rightarrow> jsstring option \<Rightarrow> ('k \<rightharpoonup> session) \<times> jsstring" where
  "call_input callState callSid SpeechResult =
     (let (callState1, state) = getState callState callSid;
          (state1, said) = input_turn state SpeechResult
      in (callState1(callSid \<mapsto> state1), said))"

text \<open>A sequence of turns on one session, and the stages it goes through.\<close>

fun run :: "session \<Rightarrow> jsstring option list \<Rightarrow> session" where
  "run s [] = s"
| "run s (r # rs) = run (fst (input_turn s r)) rs"

fun stages :: "session \<Rightarrow> jsstring option list \<Rightarrow> stage list" where
  "stages s [] = [stage s]"
| "stages s (r # rs) = stage s # stages (fst (input_turn s r)) rs"

text \<open>
  The forward order of the stages, as the source numbers them (Stage 1: Category,
  Stage 2: Service type, Stage 3: Job type, Stage 4: Property + postcode); \<open>"start"\<close>
  precedes them and \<open>"next"\<close> follows them.
\<close>

fun stage_rank :: "stage \<Rightarrow> nat" where
  "stage_rank Start = 0"
| "stage_rank Need_category = 1"
| "stage_rank Need_service_type = 2"
| "stage_rank Need_job_type = 3"
| "stage_rank Need_property_and_postcode = 4"
| "stage_rank Next = 5"

text \<open>
  The sessions a call can be in: created by \<open>/call/start\<close> or lazily by \<open>getState\<close>,
  then changed by turns of \<open>/call/input\<close> only.
\<close>

inductive reachable :: "session \<Rightarrow> bool" where
  reach_started: "reachable started_session"
| reach_lazy: "reachable lazy_session"
| reach_turn: "reachable s \<Longrightarrow> reachable (fst (input_turn s r))"

text \<open>Several turns of \<open>/call/input\<close> for one call, on the store.\<close>

fun call_inputs ::
  "('k \<rightharpoonup> session) \<Rightarrow> 'k \<Rightarrow> jsstring option list \<Rightarrow> ('k \<rightharpoonup> session)" where
  "call_inputs callState callSid [] = callState"
| "call_inputs callState callSid (r # rs) =
     call_inputs (fst (call_input callState callSid r)) callSid rs"

text \<open>
  The phrase lists that the handler tests inline, named: the currency markers of
  \<open>containsDollar\<close>, the direct answers of the category stage, and the two cadence lists
  of the job-type stage.
\<close>

definition currency_markers :: "jsstring list" where
  "currency_markers = [js ''$'', js ''usd'', js ''dollar'', js ''bucks'']"

definition directDomestic :: "jsstring list" where
  "directDomestic = [js ''home'', js ''domestic'']"

definition directCommercial :: "jsstring list" where
  "directCommercial = [js ''business'', js ''commercial'']"

definition oneTimeCues :: "jsstring list" where
  "oneTimeCues = [js ''one'', js ''once'', js ''one-off'', js ''one off'']"

definition regularCues :: "jsstring list" where
  "regularCues = [js ''ongoing'', js ''regular'', js ''weekly'', js ''monthly'',
     js ''recurring'']"

text \<open>
  The session of a started call after the turns \<open>"office"\<close> and \<open>"deep clean"\<close>: a
  commercial call waiting for its job type.
\<close>

definition commercial_session :: session where
  "commercial_session =
     \<lparr>transcript = [js ''office'', js ''deep clean''], stage = Need_job_type,
      data = [''service_category'' \<mapsto> js ''commercial'',
              ''service_type_raw'' \<mapsto> js ''deep clean'',
              ''commercial_service_type'' \<mapsto> js ''deep clean'',
              ''domestic_service_type'' \<mapsto> []]\<rparr>"

text \<open>
  A call whose stored session, if there is one, is at \<open>"start"\<close> with no data.
\<close>

definition stuck :: "('k \<rightharpoonup> session) \<Rightarrow> 'k \<Rightarrow> bool" where
  "stuck callState callSid =
     (case callState callSid of None \<Rightarrow> True
      | Some s \<Rightarrow> stage s = Start \<and> data s = Map.empty)"

section \<open>The second draft (src/unnamed/part_000)\<close>

text \<open>
  The second draft has the same \<open>containsDollar\<close>. Its \<open>ensureGbpOnly\<close> has no test
  for the empty text and another fixed prompt.
\<close>

definition gbp_prompt2 :: jsstring where
  "gbp_prompt2 =
     js ''Sorry, I only quote in pounds. Is the cleaning for a home or for a business premises?''"

definition ensureGbpOnly :: "jsstring \<Rightarrow> jsstring" where
  "ensureGbpOnly text = (if containsDollar text then gbp_prompt2 else text)"

definition sayGather2 :: "jsstring \<Rightarrow> jsstring" where
  "sayGather2 text = ensureGbpOnly text"

definition prompt2_didnt_catch :: jsstring where
  "prompt2_didnt_catch = js ''Sorry, I didn'' @ [8217]
     @ js ''t catch that. Is this for a home or a business premises?''"

definition prompt2_category :: jsstring where
  "prompt2_category = js ''Thanks. Is the cleaning for a home or for a business premises?''"

definition prompt2_domestic_type :: jsstring where
  "prompt2_domestic_type =
     js ''What type of domestic cleaning do you need. End of tenancy, deep clean, regular cleaning, post-construction, or disinfection?''"

definition prompt2_commercial_type :: jsstring where
  "prompt2_commercial_type =
     js ''What type of commercial cleaning do you need. Regular commercial cleaning, deep clean, post-construction, or disinfection?''"

definition prompt2_property :: jsstring where
  "prompt2_property = js ''Thanks. What is the property type and the postcode?''"

definition domesticHints2 :: "jsstring list" where
  "domesticHints2 = [js ''home'', js ''house'', js ''flat'', js ''apartment'', js ''studio'',
     js ''tenancy'', js ''move out'', js ''landlord'']"

text \<open>
  The body of the second draft's \<open>/call/input\<close> on the session object (the stored one, or
  a new \<open>{ stage: "start", transcript: [], data: {} }\<close>, which is also what its
  \<open>/call/start\<close> stores). The stage is never assigned; \<open>service_category\<close> is written
  only while it is not yet set.
\<close>

definition input_turn2 :: "session \<Rightarrow> jsstring option \<Rightarrow> session \<times> jsstring" where
  "input_turn2 state0 SpeechResult =
     (let speech = speechOf SpeechResult;
          state = (if speech \<noteq> [] then state0\<lparr>transcript := transcript state0 @ [speech]\<rparr>
                   else state0)
      in
      if speech = [] then (state, sayGather2 prompt2_didnt_catch)
      else
        (let lower = toLowerCase speech;
             mentionedDomestic = list_ex (\<lambda>x. includes_str lower x) domesticHints2;
             mentionedCommercial = list_ex (\<lambda>x. includes_str lower x) commercialHints;
             d = data state;
             d = (if falsy (d ''service_category'') then
                    (let d = (if mentionedDomestic \<and> \<not> mentionedCommercial
                              then d(''service_category'' \<mapsto> js ''domestic'') else d);
                         d = (if mentionedCommercial \<and> \<not> mentionedDomestic
                              then d(''service_category'' \<mapsto> js ''commercial'') else d)
                     in d)
                  else d);
             state = state\<lparr>data := d\<rparr>
         in if falsy (d ''service_category'') then (state, sayGather2 prompt2_category)
            else if falsy (d ''service_type'') then
              (state,
               if d ''service_category'' = Some (js ''domestic'')
               then sayGather2 prompt2_domestic_type
               else sayGather2 prompt2_commercial_type)
            else (state, sayGather2 prompt2_property)))"

fun run2 :: "session \<Rightarrow> jsstring option list \<Rightarrow> session" where
  "run2 s [] = s"
| "run2 s (r # rs) = run2 (fst (input_turn2 s r)) rs"

inductive reachable2 :: "session \<Rightarrow> bool" where
  reach2_new: "reachable2 lazy_session"
| reach2_turn: "reachable2 s \<Longrightarrow> reachable2 (fst (input_turn2 s r))"

section \<open>Facts about strings and prompts\<close>

lemma startsWith_iff: "startsWith t x \<longleftrightarrow> (\<exists>s. t = x @ s)"
  by (induction t x rule: startsWith.induct) auto

lemma includes_str_iff: "includes_str t x \<longleftrightarrow> (\<exists>p s. t = p @ x @ s)"
proof (induction t)
  case Nil
  then show ?case by auto
next
  case (Cons c cs)
  show ?case
  proof
    assume "includes_str (c # cs) x"
    then consider "startsWith (c # cs) x" | "includes_str cs x" by auto
    then show "\<exists>p s. c # cs = p @ x @ s"
    proof cases
      case 1
      then obtain s where "c # cs = x @ s" by (auto simp: startsWith_iff)
      then have "c # cs = [] @ x @ s" by simp
      then show ?thesis by blast
    next
      case 2
      then obtain p s where "cs = p @ x @ s" using Cons.IH by blast
      then have "c # cs = (c # p) @ x @ s" by simp
      then show ?thesis by blast
    qed
  next
    assume "\<exists>p s. c # cs = p @ x @ s"
    then obtain p s where ps: "c # cs = p @ x @ s" by blast
    show "includes_str (c # cs) x"
    proof (cases p)
      case Nil
      with ps have "startsWith (c # cs) x" by (auto simp: startsWith_iff)
      then show ?thesis by simp
    next
      case (Cons a p')
      with ps have "cs = p' @ x @ s" by simp
      then have "includes_str cs x" using Cons.IH by blast
      then show ?thesis by simp
    qed
  qed
qed


lemma js_Nil_iff: "js s = [] \<longleftrightarrow> s = []"
  by (simp add: js_def)

lemma js_inject: "js a = js b \<longleftrightarrow> a = b"
  unfolding js_def by (rule inj_map_eq_map) (simp add: inj_on_def)

text \<open>None of the prompts holds a currency marker, so each is spoken as it is.\<close>

lemma sayGather_didnt_catch: "sayGather prompt_didnt_catch = prompt_didnt_catch"
  by (simp add: sayGather_def enforceGbpSpeech_def containsDollar_def prompt_didnt_catch_def
      js_def toLowerCase_def lowerUnits_def)

lemma sayGather_prompts:
  "sayGather prompt_greeting = prompt_greeting"
  "sayGather prompt_category_clarify = prompt_category_clarify"
  "sayGather prompt_commercial_type = prompt_commercial_type"
  "sayGather prompt_domestic_type = prompt_domestic_type"
  "sayGather prompt_job_type = prompt_job_type"
  "sayGather prompt_property = prompt_property"
  "sayGather prompt_job_confirm = prompt_job_confirm"
  "sayGather prompt_rooms = prompt_rooms"
  "sayGather prompt_default = prompt_default"
  by (simp_all add: sayGather_def enforceGbpSpeech_def containsDollar_def
      prompt_greeting_def prompt_category_clarify_def prompt_commercial_type_def
      prompt_domestic_type_def prompt_job_type_def prompt_property_def
      prompt_job_confirm_def prompt_rooms_def prompt_default_def
      js_def toLowerCase_def lowerUnits_def)

lemma gbp_prompts_clean: "\<not> containsDollar gbp_prompt" "\<not> containsDollar gbp_prompt2"
  by (simp_all add: containsDollar_def gbp_prompt_def gbp_prompt2_def
      js_def toLowerCase_def lowerUnits_def)

lemma input_turn_empty:
  "speechOf r = [] \<Longrightarrow> input_turn st r = (st, prompt_didnt_catch)"
  by (simp add: input_turn_def sayGather_didnt_catch)

lemma step_stage:
  "stage (fst (input_turn st r)) = stage st
   \<or> stage_rank (stage st) < stage_rank (stage (fst (input_turn st r)))"
  by (cases "stage st") (simp_all add: input_turn_def Let_def)

lemma includesAny_iff:
  "includesAny text arr \<longleftrightarrow> (\<exists>m\<in>set arr. \<exists>p s. toLowerCase text = p @ m @ s)"
  by (simp add: includesAny_def list_ex_iff includes_str_iff)

lemma containsDollar_markers: "containsDollar text = includesAny text currency_markers"
  by (simp add: containsDollar_def includesAny_def currency_markers_def)

lemma containsDollar_nonempty: "containsDollar text \<Longrightarrow> text \<noteq> []"
  by (auto simp add: containsDollar_def toLowerCase_def js_def)

text \<open>
  Searching a lower-cased text for a phrase of code units below 128 gives the same
  answer for every lower-casing that \<open>lower_like\<close> admits, and all phrases of the
  source are of that kind.
\<close>

lemma hi_cons_shape: "\<exists>es. hi_cons t = 128 # es"
  by (simp add: hi_cons_def split: list.splits)

lemma hi_cons_idem: "hi_cons (hi_cons t) = hi_cons t"
  by (simp add: hi_cons_def split: list.splits)

lemma squash_append_cong: "squash t = squash t' \<Longrightarrow> squash (a @ t) = squash (a @ t')"
  by (induction a) simp_all

lemma squash_high_run:
  "u \<noteq> [] \<Longrightarrow> list_all (\<lambda>e. 128 \<le> e) u \<Longrightarrow> squash (u @ t) = hi_cons (squash t)"
proof (induction u)
  case Nil
  then show ?case by simp
next
  case (Cons e u)
  show ?case
  proof (cases "u = []")
    case True
    with Cons.prems show ?thesis by simp
  next
    case False
    with Cons have "squash (u @ t) = hi_cons (squash t)" by simp
    with Cons.prems show ?thesis by (simp add: hi_cons_idem)
  qed
qed

lemma lowerUnits_other:
  "\<not> plain c \<Longrightarrow> lowerUnits c \<noteq> [] \<and> list_all (\<lambda>e. 128 \<le> e) (lowerUnits c)"
  by (simp add: plain_def lowerUnits_def)

lemma lower_like_toLowerCase: "lower_like s (toLowerCase s)"
proof (induction s)
  case Nil
  then show ?case by (simp add: toLowerCase_def lower_Nil)
next
  case (Cons c s)
  show ?case
  proof (cases "plain c")
    case True
    from lower_plain [OF True Cons.IH] show ?thesis by (simp add: toLowerCase_def)
  next
    case False
    from lowerUnits_other [OF False] lower_other [OF False _ _ Cons.IH, of "lowerUnits c"]
    show ?thesis by (simp add: toLowerCase_def)
  qed
qed

lemma lower_like_squash: "lower_like s t \<Longrightarrow> squash t = squash (toLowerCase s)"
proof (induction rule: lower_like.induct)
  case lower_Nil
  then show ?case by (simp add: toLowerCase_def)
next
  case (lower_plain c s t)
  from lower_plain.IH
  have "squash (lowerUnits c @ t) = squash (lowerUnits c @ toLowerCase s)"
    by (rule squash_append_cong)
  then show ?case by (simp add: toLowerCase_def)
next
  case (lower_other c u s t)
  from lowerUnits_other [OF lower_other.hyps(1)]
  have "squash (lowerUnits c @ toLowerCase s) = hi_cons (squash (toLowerCase s))"
    by (simp add: squash_high_run)
  moreover from lower_other have "squash (u @ t) = hi_cons (squash (toLowerCase s))"
    by (simp add: squash_high_run)
  ultimately show ?case by (simp add: toLowerCase_def)
qed

lemma startsWith_squash:
  "list_all (\<lambda>e. e < 128) y \<Longrightarrow> startsWith (squash t) y = startsWith t y"
proof (induction t arbitrary: y)
  case Nil
  then show ?case by simp
next
  case (Cons c cs)
  show ?case
  proof (cases y)
    case Nil
    then show ?thesis by simp
  next
    case (Cons e ys)
    with Cons.prems have e: "e < 128" and ys: "list_all (\<lambda>e. e < 128) ys" by simp_all
    show ?thesis
    proof (cases "c < 128")
      case True
      with Cons.IH [OF ys] Cons show ?thesis by simp
    next
      case False
      obtain es where h: "hi_cons (squash cs) = 128 # es" using hi_cons_shape by blast
      from False e h Cons show ?thesis by simp
    qed
  qed
qed

lemma includes_hi_cons:
  "x \<noteq> [] \<Longrightarrow> list_all (\<lambda>e. e < 128) x \<Longrightarrow> includes_str (hi_cons t) x = includes_str t x"
  by (cases x; cases t) (auto simp add: hi_cons_def)

lemma includes_squash:
  "x \<noteq> [] \<Longrightarrow> list_all (\<lambda>e. e < 128) x \<Longrightarrow> includes_str (squash t) x = includes_str t x"
proof (induction t)
  case Nil
  then show ?case by simp
next
  case (Cons c cs)
  show ?case
  proof (cases "c < 128")
    case True
    have "startsWith (squash (c # cs)) x = startsWith (c # cs) x"
      using Cons.prems(2) by (rule startsWith_squash)
    with True Cons show ?thesis by simp
  next
    case False
    with Cons.prems have "\<not> startsWith (c # cs) x" by (cases x) auto
    with False Cons show ?thesis by (simp add: includes_hi_cons)
  qed
qed

lemma matching_ignores_other_letters:
  assumes "lower_like s t" and "x \<noteq> []" and "list_all (\<lambda>e. e < 128) x"
  shows "includes_str t x = includes_str (toLowerCase s) x"
proof -
  have "includes_str t x = includes_str (squash t) x"
    using assms(2,3) by (simp add: includes_squash)
  also have "\<dots> = includes_str (squash (toLowerCase s)) x"
    using assms(1) by (simp add: lower_like_squash)
  also have "\<dots> = includes_str (toLowerCase s) x"
    using assms(2,3) by (simp add: includes_squash)
  finally show ?thesis .
qed

lemma phrases_basic_latin:
  "list_all (\<lambda>x. x \<noteq> [] \<and> list_all (\<lambda>e. e < 128) x)
     (currency_markers @ domesticHints @ commercialHints @ domesticHints2 @ directDomestic
      @ directCommercial @ oneTimeCues @ regularCues)"
  by (simp add: currency_markers_def domesticHints_def commercialHints_def domesticHints2_def
      directDomestic_def directCommercial_def oneTimeCues_def regularCues_def js_def)


text \<open>The equations that evaluate a turn on a concrete text.\<close>

lemmas eval_defs = input_turn_def speechOf_def trim_def isWhiteSpace_def js_def toLowerCase_def
  lowerUnits_def detectCategory_def domesticHints_def commercialHints_def Let_def
  started_session_def lazy_session_def falsy_def includesAny_def

text \<open>
  The two code points outside Basic Latin that matter to matching: the Kelvin sign
  completes \<open>weekly\<close> and \<open>workplace\<close>, and U+0130 does not complete \<open>site\<close>.
\<close>

lemma matching_beyond_latin1:
  "includesAny (js ''WEE'' @ [8490] @ js ''LY'') regularCues"
  "includesAny (js ''WOR'' @ [8490] @ js ''PLACE'') commercialHints"
  "\<not> includesAny (js ''S'' @ [304] @ js ''TE'') commercialHints"
  by (simp_all add: eval_defs regularCues_def)


section \<open>Output sanitization\<close>

text \<open>
  Claim C2. In both drafts, a prompt whose lower-cased text holds one of the currency
  markers \<open>$\<close>, \<open>usd\<close>, \<open>dollar\<close>, \<open>bucks\<close> is spoken as the draft's fixed pounds-only
  prompt, which is never the original string; a prompt without a marker is spoken
  unchanged.
\<close>

theorem sanitization_total:
  "(includesAny text currency_markers \<longrightarrow>
      sayGather text = gbp_prompt \<and> gbp_prompt \<noteq> text
      \<and> sayGather2 text = gbp_prompt2 \<and> gbp_prompt2 \<noteq> text)
   \<and> (\<not> includesAny text currency_markers \<longrightarrow>
      sayGather text = text \<and> sayGather2 text = text)"
proof (intro conjI impI)
  assume m: "includesAny text currency_markers"
  then have c: "containsDollar text" by (simp add: containsDollar_markers)
  then have "text \<noteq> []" by (rule containsDollar_nonempty)
  with c show "sayGather text = gbp_prompt"
    by (simp add: sayGather_def enforceGbpSpeech_def)
  from c show "sayGather2 text = gbp_prompt2"
    by (simp add: sayGather2_def ensureGbpOnly_def)
  from c gbp_prompts_clean show "gbp_prompt \<noteq> text" by blast
  from c gbp_prompts_clean show "gbp_prompt2 \<noteq> text" by blast
next
  assume "\<not> includesAny text currency_markers"
  then have c: "\<not> containsDollar text" by (simp add: containsDollar_markers)
  then show "sayGather text = text"
    by (simp add: sayGather_def enforceGbpSpeech_def)
  from c show "sayGather2 text = text"
    by (simp add: sayGather2_def ensureGbpOnly_def)
qed

theorem sanitization_total_witness:
  "includesAny (js ''That is 50 DOLLARS'') currency_markers
   \<and> sayGather (js ''That is 50 DOLLARS'') = gbp_prompt
   \<and> sayGather2 (js ''That is 50 DOLLARS'') = gbp_prompt2
   \<and> includesAny (js ''50 BUC'' @ [8490] @ js ''S'') currency_markers
   \<and> sayGather (js ''50 BUC'' @ [8490] @ js ''S'') = gbp_prompt
   \<and> \<not> includesAny prompt_job_type currency_markers
   \<and> sayGather prompt_job_type = prompt_job_type
   \<and> sayGather2 prompt_job_type = prompt_job_type"
proof -
  have a: "includesAny (js ''That is 50 DOLLARS'') currency_markers"
    "includesAny (js ''50 BUC'' @ [8490] @ js ''S'') currency_markers"
    by (simp_all add: includesAny_def currency_markers_def js_def toLowerCase_def lowerUnits_def)
  have b: "\<not> includesAny prompt_job_type currency_markers"
    by (simp add: includesAny_def currency_markers_def prompt_job_type_def js_def
        toLowerCase_def lowerUnits_def)
  show ?thesis
    using a b sanitization_total [of "js ''That is 50 DOLLARS''"]
      sanitization_total [of "js ''50 BUC'' @ [8490] @ js ''S''"]
      sanitization_total [of prompt_job_type]
    by simp
qed

section \<open>Turns without recognized text\<close>

text \<open>
  Claim C7. A turn whose recognized text is empty (absent, empty, or only white space,
  which \<open>trim\<close> removes) leaves the whole session as it is, at every stage, and is
  answered by the one generic re-prompt; a second such turn is answered by the same
  text.
\<close>

theorem empty_turn_changes_nothing:
  assumes "speechOf r1 = []" and "speechOf r2 = []"
  shows "fst (input_turn st r1) = st
    \<and> snd (input_turn st r1) = prompt_didnt_catch
    \<and> snd (input_turn (fst (input_turn st r1)) r2) = snd (input_turn st r1)"
  using assms by (simp add: input_turn_empty)

theorem empty_turn_changes_nothing_witness:
  "speechOf None = [] \<and> speechOf (Some (js '' '')) = []
   \<and> fst (input_turn started_session None) = started_session
   \<and> snd (input_turn started_session None) = prompt_didnt_catch
   \<and> snd (input_turn (fst (input_turn started_session None)) (Some (js '' '')))
       = snd (input_turn started_session None)"
proof -
  have a: "speechOf None = []" by (simp add: speechOf_def trim_def)
  have b: "speechOf (Some (js '' '')) = []"
    by (simp add: speechOf_def trim_def js_def isWhiteSpace_def)
  show ?thesis
    using a b empty_turn_changes_nothing [OF a b, of started_session] by blast
qed

section \<open>The stage only moves forward\<close>

lemma stages_lower_bound:
  "\<forall>x\<in>set (stages st rs). stage_rank (stage st) \<le> stage_rank x"
proof (induction rs arbitrary: st)
  case Nil
  then show ?case by simp
next
  case (Cons r rs)
  have "stage_rank (stage st) \<le> stage_rank (stage (fst (input_turn st r)))"
    using step_stage [of st r] by auto
  with Cons.IH [of "fst (input_turn st r)"] show ?case by auto
qed

lemma stages_sorted: "sorted (map stage_rank (stages st rs))"
proof (induction rs arbitrary: st)
  case Nil
  then show ?case by simp
next
  case (Cons r rs)
  have "stage_rank (stage st) \<le> stage_rank (stage (fst (input_turn st r)))"
    using step_stage [of st r] by auto
  with stages_lower_bound [of "fst (input_turn st r)" rs] Cons.IH [of "fst (input_turn st r)"]
  show ?case by auto
qed

lemma run_rank: "stage_rank (stage st) \<le> stage_rank (stage (run st rs))"
proof (induction rs arbitrary: st)
  case Nil
  then show ?case by simp
next
  case (Cons r rs)
  have "stage_rank (stage st) \<le> stage_rank (stage (fst (input_turn st r)))"
    using step_stage [of st r] by auto
  with Cons.IH [of "fst (input_turn st r)"] show ?case by simp
qed

text \<open>
  Claim C3. A turn of the input handler keeps the stage or moves it to a strictly later
  one in the forward order; along any sequence of turns the stages visited are in
  non-decreasing order, and the last is not before the first.
\<close>

theorem stage_never_goes_back:
  "(stage (fst (input_turn st r)) = stage st
      \<or> stage_rank (stage st) < stage_rank (stage (fst (input_turn st r))))
   \<and> sorted (map stage_rank (stages st rs))
   \<and> stage_rank (stage st) \<le> stage_rank (stage (run st rs))"
  using step_stage stages_sorted run_rank by blast

theorem stage_never_goes_back_witness:
  "map stage_rank (stages started_session [Some (js ''hello''), Some (js ''office''), None])
     = [1, 1, 2, 2]
   \<and> sorted (map stage_rank
        (stages started_session [Some (js ''hello''), Some (js ''office''), None]))"
proof -
  have "map stage_rank (stages started_session [Some (js ''hello''), Some (js ''office''), None])
     = [1, 1, 2, 2]"
    by (simp add: eval_defs sayGather_prompts)
  then show ?thesis
    using stage_never_goes_back
      [of started_session None "[Some (js ''hello''), Some (js ''office''), None]"]
    by simp
qed

section \<open>Reachable sessions\<close>

lemma run_to_commercial_session:
  "run started_session [Some (js ''office''), Some (js ''deep clean'')] = commercial_session"
  by (simp add: eval_defs commercial_session_def sayGather_prompts)

lemma reachable_run: "reachable s \<Longrightarrow> reachable (run s rs)"
  by (induction rs arbitrary: s) (simp_all add: reach_turn)

lemma reachable_commercial_session: "reachable commercial_session"
  using reachable_run [OF reach_started, of "[Some (js ''office''), Some (js ''deep clean'')]"]
  by (simp only: run_to_commercial_session)

section \<open>The transcript\<close>

text \<open>\<open>trim\<close> removes white space at both ends, and nothing else.\<close>

lemma rev_split: "xs = rev (dropWhile P (rev xs)) @ rev (takeWhile P (rev xs))"
proof -
  have "rev (rev xs) = rev (takeWhile P (rev xs) @ dropWhile P (rev xs))"
    by (simp only: takeWhile_dropWhile_id)
  then show ?thesis by (simp only: rev_rev_ident rev_append)
qed

lemma trim_split:
  "dropWhile isWhiteSpace s
     = trim s @ rev (takeWhile isWhiteSpace (rev (dropWhile isWhiteSpace s)))"
  unfolding trim_def by (rule rev_split)

lemma trim_decomp:
  "\<exists>p q. s = p @ trim s @ q \<and> list_all isWhiteSpace p \<and> list_all isWhiteSpace q"
proof -
  let ?d = "dropWhile isWhiteSpace s"
  let ?q = "rev (takeWhile isWhiteSpace (rev ?d))"
  have "s = takeWhile isWhiteSpace s @ ?d" by simp
  with trim_split [of s] have 1: "s = takeWhile isWhiteSpace s @ trim s @ ?q" by simp
  have 3: "list_all isWhiteSpace (takeWhile isWhiteSpace s)"
    by (auto simp: list_all_iff dest: set_takeWhileD)
  have 4: "list_all isWhiteSpace ?q"
    by (auto simp: list_all_iff dest: set_takeWhileD)
  from 1 3 4 show ?thesis by blast
qed

lemma trim_ends:
  assumes "trim s \<noteq> []"
  shows "\<not> isWhiteSpace (hd (trim s)) \<and> \<not> isWhiteSpace (last (trim s))"
proof -
  let ?d = "dropWhile isWhiteSpace s"
  let ?e = "dropWhile isWhiteSpace (rev ?d)"
  from assms have e: "?e \<noteq> []" by (metis trim_def rev_is_Nil_conv)
  have d: "?d \<noteq> []"
  proof
    assume "?d = []"
    then have "?e = []" by (simp only: rev.simps dropWhile.simps)
    with e show False by blast
  qed
  have l: "last (trim s) = hd ?e" unfolding trim_def by (rule last_rev)
  have "\<not> isWhiteSpace (hd ?e)" using e by (rule hd_dropWhile)
  with l have A: "\<not> isWhiteSpace (last (trim s))" by simp
  have "hd ?d = hd (trim s @ rev (takeWhile isWhiteSpace (rev ?d)))"
    using trim_split [of s] by simp
  with assms have "hd ?d = hd (trim s)" by simp
  moreover have "\<not> isWhiteSpace (hd ?d)" using d by (rule hd_dropWhile)
  ultimately show ?thesis using A by simp
qed

lemma transcript_push:
  "speechOf r \<noteq> [] \<Longrightarrow> transcript (fst (input_turn st r)) = transcript st @ [speechOf r]"
  by (cases "stage st") (simp_all add: input_turn_def Let_def)

text \<open>
  Claim C6, as stated, fails: the entry pushed is the trimmed text, not the raw input,
  and a raw input of white space only is not empty but adds no entry.
\<close>

theorem transcript_entry_counterexample:
  "js '' office'' \<noteq> []
   \<and> transcript (fst (input_turn started_session (Some (js '' office''))))
       \<noteq> transcript started_session @ [js '' office'']
   \<and> transcript (fst (input_turn started_session (Some (js '' office'')))) = [js ''office'']
   \<and> js '' '' \<noteq> []
   \<and> transcript (fst (input_turn started_session (Some (js '' '')))) = []"
  by (simp add: eval_defs sayGather_prompts sayGather_didnt_catch)

text \<open>
  Claim C6, amended. For every turn whose recognized text is not empty after \<open>trim\<close>,
  the transcript grows by exactly one entry, and that entry is the recognized text
  without its leading and trailing white space.
\<close>

theorem transcript_grows_by_trimmed_text:
  assumes "trim raw \<noteq> []"
  shows "transcript (fst (input_turn st (Some raw))) = transcript st @ [trim raw]
    \<and> (\<exists>p q. raw = p @ trim raw @ q \<and> list_all isWhiteSpace p \<and> list_all isWhiteSpace q)
    \<and> \<not> isWhiteSpace (hd (trim raw)) \<and> \<not> isWhiteSpace (last (trim raw))"
proof -
  from assms have "speechOf (Some raw) \<noteq> []" by (simp add: speechOf_def)
  then have "transcript (fst (input_turn st (Some raw))) = transcript st @ [speechOf (Some raw)]"
    by (rule transcript_push)
  then have "transcript (fst (input_turn st (Some raw))) = transcript st @ [trim raw]"
    by (simp add: speechOf_def)
  with trim_decomp [of raw] trim_ends [OF assms] show ?thesis by blast
qed

theorem transcript_grows_by_trimmed_text_witness:
  "trim (js '' office'') = js ''office''
   \<and> transcript (fst (input_turn started_session (Some (js '' office'')))) = [js ''office'']"
proof -
  have t: "trim (js '' office'') = js ''office''"
    by (simp add: trim_def js_def isWhiteSpace_def)
  then have n: "trim (js '' office'') \<noteq> []" by (simp add: js_Nil_iff)
  from transcript_grows_by_trimmed_text [OF n, of started_session] t
  show ?thesis by (simp add: started_session_def)
qed

section \<open>Phrase lists\<close>

lemma includesAny_lists:
  "includesAny sp directDomestic
     = (includes_str (toLowerCase sp) (js ''home'') \<or> includes_str (toLowerCase sp) (js ''domestic''))"
  "includesAny sp directCommercial
     = (includes_str (toLowerCase sp) (js ''business'')
        \<or> includes_str (toLowerCase sp) (js ''commercial''))"
  "includesAny sp oneTimeCues
     = (includes_str (toLowerCase sp) (js ''one'') \<or> includes_str (toLowerCase sp) (js ''once'')
        \<or> includes_str (toLowerCase sp) (js ''one-off'')
        \<or> includes_str (toLowerCase sp) (js ''one off''))"
  "includesAny sp regularCues
     = (includes_str (toLowerCase sp) (js ''ongoing'')
        \<or> includes_str (toLowerCase sp) (js ''regular'')
        \<or> includes_str (toLowerCase sp) (js ''weekly'')
        \<or> includes_str (toLowerCase sp) (js ''monthly'')
        \<or> includes_str (toLowerCase sp) (js ''recurring''))"
  by (simp_all add: includesAny_def directDomestic_def directCommercial_def oneTimeCues_def
      regularCues_def Let_def)

lemma detectCategory_hints:
  "detectCategory sp =
     (if includesAny sp domesticHints \<and> \<not> includesAny sp commercialHints then js ''domestic''
      else if includesAny sp commercialHints \<and> \<not> includesAny sp domesticHints
      then js ''commercial'' else [])"
  by (simp add: detectCategory_def includesAny_def Let_def)

section \<open>The job-type field before its stage\<close>

lemma job_type_unset_step:
  assumes "data s ''job_type'' = None"
    and "stage_rank (stage (fst (input_turn s r))) \<le> 3"
  shows "data (fst (input_turn s r)) ''job_type'' = None"
  using assms
  by (cases "stage s")
    (auto simp add: input_turn_def Let_def falsy_def js_Nil_iff split: if_splits)

lemma reachable_job_type_unset:
  "reachable s \<Longrightarrow> stage_rank (stage s) \<le> 3 \<Longrightarrow> data s ''job_type'' = None"
proof (induction rule: reachable.induct)
  case reach_started
  then show ?case by (simp add: started_session_def)
next
  case reach_lazy
  then show ?case by (simp add: lazy_session_def)
next
  case (reach_turn s r)
  have "stage_rank (stage s) \<le> stage_rank (stage (fst (input_turn s r)))"
    using step_stage [of s r] by auto
  with reach_turn.prems have "stage_rank (stage s) \<le> 3" by simp
  then have "data s ''job_type'' = None" by (rule reach_turn.IH)
  then show ?case using reach_turn.prems by (rule job_type_unset_step)
qed

section \<open>The job-type stage on ambiguous text\<close>

text \<open>
  Claim C4 says that a text matching both the one-time phrases and the regular/ongoing
  phrases fails at \<open>need_job_type\<close>: no \<open>job_type\<close> is written and the stage stays.
  The branch has two assignments in sequence and no test that both lists match, unlike
  \<open>detectCategory\<close>: on \<open>"not regular, just a one-off"\<close>, in a session reached from a
  start, the second assignment wins, \<open>job_type\<close> becomes \<open>regular\<close> and the stage
  moves to \<open>need_property_and_postcode\<close>.
\<close>

theorem ambiguous_job_type_advances:
  "reachable commercial_session
   \<and> stage commercial_session = Need_job_type
   \<and> includesAny (js ''not regular, just a one-off'') oneTimeCues
   \<and> includesAny (js ''not regular, just a one-off'') regularCues
   \<and> stage (fst (input_turn commercial_session (Some (js ''not regular, just a one-off''))))
       = Need_property_and_postcode
   \<and> data (fst (input_turn commercial_session (Some (js ''not regular, just a one-off''))))
        ''job_type'' = Some (js ''regular'')"
proof -
  have "stage commercial_session = Need_job_type
    \<and> includesAny (js ''not regular, just a one-off'') oneTimeCues
    \<and> includesAny (js ''not regular, just a one-off'') regularCues
    \<and> stage (fst (input_turn commercial_session (Some (js ''not regular, just a one-off''))))
        = Need_property_and_postcode
    \<and> data (fst (input_turn commercial_session (Some (js ''not regular, just a one-off''))))
         ''job_type'' = Some (js ''regular'')"
    by (simp add: eval_defs commercial_session_def oneTimeCues_def regularCues_def
        sayGather_prompts)
  with reachable_commercial_session show ?thesis by blast
qed

section \<open>Failed extraction\<close>

text \<open>
  Claim C5, as stated, fails in two ways. On every turn with text the text is pushed
  onto the transcript before any stage logic, so the session record changes even when
  the stage's re-prompt is returned (\<open>"hello"\<close>). And two kinds of ambiguous text do not
  fail at all: at \<open>need_category\<close> a text matching both hint lists that holds a
  direct-answer word (\<open>"for my home and my office"\<close>), and at \<open>need_job_type\<close> a text
  matching both cadence lists (\<open>"not regular, just a one-off"\<close>); on both the stage
  advances.
\<close>

theorem failed_extraction_counterexample:
  "speechOf (Some (js ''hello'')) \<noteq> []
   \<and> \<not> includesAny (js ''hello'') domesticHints
   \<and> \<not> includesAny (js ''hello'') commercialHints
   \<and> snd (input_turn started_session (Some (js ''hello''))) = prompt_category_clarify
   \<and> stage (fst (input_turn started_session (Some (js ''hello'')))) = Need_category
   \<and> transcript (fst (input_turn started_session (Some (js ''hello'')))) = [js ''hello'']
   \<and> fst (input_turn started_session (Some (js ''hello''))) \<noteq> started_session
   \<and> includesAny (js ''for my home and my office'') domesticHints
   \<and> includesAny (js ''for my home and my office'') commercialHints
   \<and> stage (fst (input_turn started_session (Some (js ''for my home and my office''))))
       = Need_service_type
   \<and> includesAny (js ''not regular, just a one-off'') oneTimeCues
   \<and> includesAny (js ''not regular, just a one-off'') regularCues
   \<and> stage (fst (input_turn commercial_session (Some (js ''not regular, just a one-off''))))
       = Need_property_and_postcode"
  by (simp add: eval_defs commercial_session_def oneTimeCues_def regularCues_def
      sayGather_prompts)

text \<open>
  Claim C5, amended. In a session reached from a start, on a turn with non-empty
  (trimmed) text whose extraction fails, the stage and the collected data are unchanged,
  the transcript grows by that text, and the answer is the clarifying re-prompt of the
  current stage. The failing texts covered are: at \<open>need_category\<close>, an ambiguous text
  (both hint lists match) or an unrecognized one (neither matches) that holds none of
  the direct-answer words home, domestic, business, commercial; at \<open>need_job_type\<close>, a
  text matching neither cadence list. Nothing is said about an ambiguous text with a
  direct-answer word at \<open>need_category\<close>, nor about a text matching both cadence lists
  at \<open>need_job_type\<close>.
\<close>

theorem failed_extraction_keeps_stage_and_data:
  assumes "reachable st" and "speechOf r \<noteq> []"
  shows "(stage st = Need_category
          \<and> (includesAny (speechOf r) domesticHints \<and> includesAny (speechOf r) commercialHints
              \<or> \<not> includesAny (speechOf r) domesticHints
                \<and> \<not> includesAny (speechOf r) commercialHints)
          \<and> \<not> includesAny (speechOf r) directDomestic
          \<and> \<not> includesAny (speechOf r) directCommercial
          \<longrightarrow> input_turn st r
              = (st\<lparr>transcript := transcript st @ [speechOf r]\<rparr>, prompt_category_clarify))
    \<and> (stage st = Need_job_type
          \<and> \<not> includesAny (speechOf r) oneTimeCues
          \<and> \<not> includesAny (speechOf r) regularCues
          \<longrightarrow> input_turn st r
              = (st\<lparr>transcript := transcript st @ [speechOf r]\<rparr>, prompt_job_confirm))"
proof (intro conjI impI)
  assume "stage st = Need_category
          \<and> (includesAny (speechOf r) domesticHints \<and> includesAny (speechOf r) commercialHints
              \<or> \<not> includesAny (speechOf r) domesticHints
                \<and> \<not> includesAny (speechOf r) commercialHints)
          \<and> \<not> includesAny (speechOf r) directDomestic
          \<and> \<not> includesAny (speechOf r) directCommercial"
  then have c: "stage st = Need_category" "detectCategory (speechOf r) = []"
    "\<not> includesAny (speechOf r) directDomestic" "\<not> includesAny (speechOf r) directCommercial"
    by (auto simp add: detectCategory_hints)
  with assms(2) show "input_turn st r
      = (st\<lparr>transcript := transcript st @ [speechOf r]\<rparr>, prompt_category_clarify)"
    by (simp add: input_turn_def Let_def includesAny_lists sayGather_prompts)
next
  assume j: "stage st = Need_job_type
          \<and> \<not> includesAny (speechOf r) oneTimeCues
          \<and> \<not> includesAny (speechOf r) regularCues"
  with assms(1) have "data st ''job_type'' = None"
    by (simp add: reachable_job_type_unset)
  with j assms(2) show "input_turn st r
      = (st\<lparr>transcript := transcript st @ [speechOf r]\<rparr>, prompt_job_confirm)"
    by (simp add: input_turn_def Let_def includesAny_lists falsy_def sayGather_prompts)
qed

theorem failed_extraction_keeps_stage_and_data_witness:
  "input_turn started_session (Some (js ''hello''))
     = (started_session\<lparr>transcript := [js ''hello'']\<rparr>, prompt_category_clarify)
   \<and> includesAny (js ''my flat and my office'') domesticHints
   \<and> includesAny (js ''my flat and my office'') commercialHints
   \<and> input_turn started_session (Some (js ''my flat and my office''))
     = (started_session\<lparr>transcript := [js ''my flat and my office'']\<rparr>,
        prompt_category_clarify)
   \<and> input_turn commercial_session (Some (js ''not sure''))
     = (commercial_session\<lparr>transcript := transcript commercial_session @ [js ''not sure'']\<rparr>,
        prompt_job_confirm)"
proof -
  have a: "speechOf (Some (js ''hello'')) = js ''hello''"
    "speechOf (Some (js ''my flat and my office'')) = js ''my flat and my office''"
    "speechOf (Some (js ''not sure'')) = js ''not sure''"
    by (simp_all add: speechOf_def trim_def js_def isWhiteSpace_def)
  have n: "speechOf (Some (js ''hello'')) \<noteq> []"
    "speechOf (Some (js ''my flat and my office'')) \<noteq> []"
    "speechOf (Some (js ''not sure'')) \<noteq> []"
    by (simp_all add: a js_Nil_iff)
  have c: "\<not> includesAny (js ''hello'') domesticHints"
    "\<not> includesAny (js ''hello'') commercialHints"
    "\<not> includesAny (js ''hello'') directDomestic"
    "\<not> includesAny (js ''hello'') directCommercial"
    "includesAny (js ''my flat and my office'') domesticHints"
    "includesAny (js ''my flat and my office'') commercialHints"
    "\<not> includesAny (js ''my flat and my office'') directDomestic"
    "\<not> includesAny (js ''my flat and my office'') directCommercial"
    by (simp_all add: eval_defs directDomestic_def directCommercial_def)
  have d: "\<not> includesAny (js ''not sure'') oneTimeCues"
    "\<not> includesAny (js ''not sure'') regularCues"
    by (simp_all add: eval_defs oneTimeCues_def regularCues_def)
  have e: "stage started_session = Need_category" "stage commercial_session = Need_job_type"
    "transcript started_session = []"
    by (simp_all add: started_session_def commercial_session_def)
  from failed_extraction_keeps_stage_and_data [OF reach_started n(1)]
    failed_extraction_keeps_stage_and_data [OF reach_started n(2)]
    failed_extraction_keeps_stage_and_data [OF reachable_commercial_session n(3)]
    a c d e
  show ?thesis by simp
qed


section \<open>The category stage on ambiguous text\<close>

text \<open>
  Claim C1 says that a text matching both hint lists never advances the category stage.
  \<open>detectCategory\<close> does return the empty string on such a text, and the second draft
  writes nothing, but the direct-answer test that follows \<open>detectCategory\<close> in the first
  draft looks for \<open>home\<close> and \<open>business\<close> again without regard to the other list: on
  \<open>"for my home and my office"\<close> the first draft writes \<open>domestic\<close> and moves to
  \<open>need_service_type\<close>.
\<close>

theorem ambiguous_category_advances:
  "includesAny (js ''for my home and my office'') domesticHints
   \<and> includesAny (js ''for my home and my office'') commercialHints
   \<and> detectCategory (js ''for my home and my office'') = []
   \<and> stage (fst (input_turn started_session (Some (js ''for my home and my office''))))
       = Need_service_type
   \<and> data (fst (input_turn started_session (Some (js ''for my home and my office''))))
        ''service_category'' = Some (js ''domestic'')
   \<and> data (fst (input_turn2 lazy_session (Some (js ''for my home and my office''))))
        ''service_category'' = None"
  by (simp add: eval_defs input_turn2_def domesticHints2_def sayGather_prompts)


section \<open>The commercial path\<close>

text \<open>
  Claim C8. From the session that \<open>/call/start\<close> stores, at \<open>need_category\<close>, the turns
  \<open>"office"\<close>, \<open>"deep clean"\<close>, \<open>"just a one-off"\<close> give: after the first,
  \<open>service_category = "commercial"\<close> at \<open>need_service_type\<close>; after the second, the
  speech stored as the commercial service type at \<open>need_job_type\<close>; after the third,
  \<open>job_type = "one_time"\<close> at \<open>need_property_and_postcode\<close>.
\<close>

theorem commercial_path_scenario:
  "fst (call_start callState callSid) callSid = Some started_session
   \<and> stage started_session = Need_category
   \<and> data (run started_session [Some (js ''office'')]) ''service_category''
       = Some (js ''commercial'')
   \<and> stage (run started_session [Some (js ''office'')]) = Need_service_type
   \<and> data (run started_session [Some (js ''office''), Some (js ''deep clean'')])
        ''commercial_service_type'' = Some (js ''deep clean'')
   \<and> stage (run started_session [Some (js ''office''), Some (js ''deep clean'')])
       = Need_job_type
   \<and> data (run started_session
        [Some (js ''office''), Some (js ''deep clean''), Some (js ''just a one-off'')])
        ''job_type'' = Some (js ''one_time'')
   \<and> stage (run started_session
        [Some (js ''office''), Some (js ''deep clean''), Some (js ''just a one-off'')])
       = Need_property_and_postcode"
  by (simp add: eval_defs call_start_def sayGather_prompts)

theorem commercial_path_scenario_witness:
  "stage (run started_session
        [Some (js ''office''), Some (js ''deep clean''), Some (js ''just a one-off'')])
       = Need_property_and_postcode"
  using commercial_path_scenario [of Map.empty "0::nat"] by blast

section \<open>A call that was never started\<close>

lemma start_turn:
  assumes "stage s = Start"
  shows "stage (fst (input_turn s r)) = Start"
    and "data (fst (input_turn s r)) = data s"
    and "speechOf r \<noteq> [] \<Longrightarrow> snd (input_turn s r) = prompt_default"
  using assms by (simp_all add: input_turn_def Let_def sayGather_prompts)

lemma call_input_session:
  "fst (call_input callState callSid r) callSid
     = Some (fst (input_turn (snd (getState callState callSid)) r))"
  "snd (call_input callState callSid r) = snd (input_turn (snd (getState callState callSid)) r)"
  by (simp_all add: call_input_def split_beta)

lemma stuck_getState:
  "stuck callState callSid \<Longrightarrow>
     stage (snd (getState callState callSid)) = Start
     \<and> data (snd (getState callState callSid)) = Map.empty"
  by (simp add: stuck_def getState_def lazy_session_def split: option.splits)

lemma stuck_call_input:
  "stuck callState callSid \<Longrightarrow> stuck (fst (call_input callState callSid r)) callSid"
  using stuck_getState [of callState callSid]
  by (simp add: stuck_def call_input_session start_turn)

lemma stuck_call_inputs:
  "stuck callState callSid \<Longrightarrow> stuck (call_inputs callState callSid rs) callSid"
  by (induction rs arbitrary: callState) (simp_all add: stuck_call_input)

text \<open>
  Claim C9. A call unknown to the store gets, on its first \<open>/call/input\<close>, a session at
  stage \<open>"start"\<close>. After any number of turns, a further turn leaves the stored session
  at \<open>"start"\<close> with no collected data, and a turn with recognized text (non-empty after
  \<open>trim\<close>) is answered by the default prompt.
\<close>

theorem lazy_session_is_stuck:
  assumes "callState callSid = None"
  shows "fst (getState callState callSid) callSid = Some lazy_session
    \<and> stage lazy_session = Start
    \<and> (\<exists>s. fst (call_input (call_inputs callState callSid rs) callSid r) callSid = Some s
          \<and> stage s = Start \<and> data s = Map.empty)
    \<and> (speechOf r \<noteq> [] \<longrightarrow>
          snd (call_input (call_inputs callState callSid rs) callSid r) = prompt_default)"
proof -
  from assms have "stuck callState callSid" by (simp add: stuck_def)
  then have "stuck (call_inputs callState callSid rs) callSid" by (rule stuck_call_inputs)
  then have g: "stage (snd (getState (call_inputs callState callSid rs) callSid)) = Start"
    "data (snd (getState (call_inputs callState callSid rs) callSid)) = Map.empty"
    using stuck_getState [of "call_inputs callState callSid rs" callSid] by simp_all
  from assms have "fst (getState callState callSid) callSid = Some lazy_session"
    by (simp add: getState_def)
  moreover have "stage lazy_session = Start" by (simp add: lazy_session_def)
  ultimately show ?thesis
    using g by (simp add: call_input_session start_turn)
qed

theorem lazy_session_is_stuck_witness:
  "(\<exists>s. fst (call_input (call_inputs Map.empty ''CA1'' [Some (js ''office''), None])
            ''CA1'' (Some (js ''deep clean''))) ''CA1'' = Some s
        \<and> stage s = Start \<and> data s = Map.empty)
   \<and> snd (call_input (call_inputs Map.empty ''CA1'' [Some (js ''office''), None])
            ''CA1'' (Some (js ''deep clean''))) = prompt_default"
proof -
  have b: "speechOf (Some (js ''deep clean'')) \<noteq> []"
    by (simp add: speechOf_def trim_def js_def isWhiteSpace_def)
  from lazy_session_is_stuck [where callState = Map.empty and callSid = "''CA1''"
      and rs = "[Some (js ''office''), None]" and r = "Some (js ''deep clean'')", OF refl] b
  show ?thesis by blast
qed


section \<open>The service category is written once\<close>

lemma category_only_at_need_category:
  "stage s \<noteq> Need_category \<Longrightarrow>
     data (fst (input_turn s r)) ''service_category'' = data s ''service_category''"
  by (cases "stage s") (simp_all add: input_turn_def Let_def)

lemma stays_at_need_category:
  "stage (fst (input_turn s r)) = Need_category \<Longrightarrow>
     stage s = Need_category \<and> data (fst (input_turn s r)) = data s"
  by (cases "stage s") (simp_all add: input_turn_def Let_def js_Nil_iff split: if_splits)

lemma reachable_category_unset:
  "reachable s \<Longrightarrow> stage s = Need_category \<Longrightarrow> data s ''service_category'' = None"
proof (induction rule: reachable.induct)
  case reach_started
  then show ?case by (simp add: started_session_def)
next
  case reach_lazy
  then show ?case by (simp add: lazy_session_def)
next
  case (reach_turn s r)
  from reach_turn.prems have "stage s = Need_category"
    and d: "data (fst (input_turn s r)) = data s"
    using stays_at_need_category [of s r] by simp_all
  then have "data s ''service_category'' = None" using reach_turn.IH by simp
  with d show ?case by simp
qed

lemma category_kept_along_run:
  "reachable s \<Longrightarrow> data s ''service_category'' = Some v \<Longrightarrow>
     data (run s rs) ''service_category'' = Some v \<and> stage (run s rs) \<noteq> Need_category"
proof (induction rs arbitrary: s)
  case Nil
  then show ?case using reachable_category_unset [of s] by auto
next
  case (Cons r rs)
  from Cons.prems have "stage s \<noteq> Need_category"
    using reachable_category_unset [of s] by auto
  then have "data (fst (input_turn s r)) ''service_category'' = Some v"
    using Cons.prems(2) by (simp add: category_only_at_need_category)
  moreover have "reachable (fst (input_turn s r))" using Cons.prems(1) by (rule reach_turn)
  ultimately show ?case using Cons.IH [of "fst (input_turn s r)"] by simp
qed

lemma category_guard2:
  "\<not> falsy (data s ''service_category'') \<Longrightarrow>
     data (fst (input_turn2 s r)) ''service_category'' = data s ''service_category''"
  by (simp add: input_turn2_def Let_def)

lemma category_values2:
  "data s ''service_category'' \<noteq> Some [] \<Longrightarrow>
     data (fst (input_turn2 s r)) ''service_category'' \<noteq> Some []"
  by (simp add: input_turn2_def Let_def js_Nil_iff)

lemma reachable2_category_nonempty:
  "reachable2 s \<Longrightarrow> data s ''service_category'' \<noteq> Some []"
  by (induction rule: reachable2.induct) (simp_all add: lazy_session_def category_values2)

lemma category_kept_along_run2:
  "reachable2 s \<Longrightarrow> data s ''service_category'' = Some v \<Longrightarrow>
     data (run2 s rs) ''service_category'' = Some v"
proof (induction rs arbitrary: s)
  case Nil
  then show ?case by simp
next
  case (Cons r rs)
  from Cons.prems have "\<not> falsy (data s ''service_category'')"
    using reachable2_category_nonempty [of s] by (auto simp: falsy_def)
  then have "data (fst (input_turn2 s r)) ''service_category'' = Some v"
    using Cons.prems(2) by (simp add: category_guard2)
  moreover have "reachable2 (fst (input_turn2 s r))" using Cons.prems(1) by (rule reach2_turn)
  ultimately show ?case using Cons.IH [of "fst (input_turn2 s r)"] by simp
qed

lemma turn2_office:
  "data (fst (input_turn2 lazy_session (Some (js ''office'')))) ''service_category''
     = Some (js ''commercial'')"
  by (simp add: eval_defs input_turn2_def domesticHints2_def)

text \<open>
  Claim C10. In a session reached from a start, once \<open>service_category\<close> holds a value,
  no sequence of turns changes it, and the stage is never \<open>need_category\<close> again. In
  the first draft only the \<open>need_category\<close> branch writes the field; in the second
  draft the write is under the guard that the field is not yet set.
\<close>

theorem service_category_written_once:
  "(reachable s \<and> data s ''service_category'' = Some v \<longrightarrow>
      data (run s rs) ''service_category'' = Some v \<and> stage (run s rs) \<noteq> Need_category)
   \<and> (stage s \<noteq> Need_category \<longrightarrow>
      data (fst (input_turn s r)) ''service_category'' = data s ''service_category'')
   \<and> (reachable2 s \<and> data s ''service_category'' = Some v \<longrightarrow>
      data (run2 s rs) ''service_category'' = Some v)
   \<and> (\<not> falsy (data s ''service_category'') \<longrightarrow>
      data (fst (input_turn2 s r)) ''service_category'' = data s ''service_category'')"
  using category_kept_along_run category_only_at_need_category category_kept_along_run2
    category_guard2 by blast

theorem service_category_written_once_witness:
  "reachable commercial_session
   \<and> data commercial_session ''service_category'' = Some (js ''commercial'')
   \<and> data (run commercial_session [Some (js ''my home''), Some (js ''a flat'')])
        ''service_category'' = Some (js ''commercial'')
   \<and> reachable2 (fst (input_turn2 lazy_session (Some (js ''office''))))
   \<and> data (run2 (fst (input_turn2 lazy_session (Some (js ''office''))))
        [Some (js ''my home'')]) ''service_category'' = Some (js ''commercial'')"
proof -
  have a: "data commercial_session ''service_category'' = Some (js ''commercial'')"
    by (simp add: commercial_session_def)
  have b: "reachable2 (fst (input_turn2 lazy_session (Some (js ''office''))))"
    by (rule reach2_turn) (rule reach2_new)
  from service_category_written_once
      [of commercial_session "js ''commercial''" "[Some (js ''my home''), Some (js ''a flat'')]"]
    service_category_written_once
      [of "fst (input_turn2 lazy_session (Some (js ''office'')))" "js ''commercial''"
        "[Some (js ''my home'')]"]
    a b reachable_commercial_session turn2_office
  show ?thesis by blast
qed



end
